theory Spec2Isabelle
  imports Complex_Main "HOL-Library.List_Lexorder" "HOL-Library.Char_ord" "HOL-Library.Sublist"
begin

section \<open>Values shared by the two modules\<close>

text \<open>
  JavaScript strings are sequences of UTF-16 code units; here a string is a \<open>char list\<close>,
  that is, the code units below 256. The order on strings (\<open><\<close>, from List_Lexorder over
  Char_ord) is the code-unit-wise lexicographic order that JavaScript's \<open><\<close> and \<open>></\<close>
  apply to two strings.

  A JSON value, as \<open>JSON.parse\<close> produces it. A property that is missing from an object
  reads as \<open>undefined\<close>, which is \<open>None\<close> in \<open>json option\<close>; \<open>null\<close> is \<open>Some JNull\<close>.
\<close>

datatype json =
    JNull
  | JBool bool
  | JNum rat
  | JStr string
  | JArr "json list"
  | JObj "(string \<times> json) list"

text \<open>\<open>v.k\<close> for a value \<open>v\<close> that is not \<open>null\<close> (reading a property of \<open>null\<close> throws, and
  every caller below tests for \<open>JNull\<close> first). None of the keys read here (\<open>temp\<close>) is a
  built-in property of a number, string, boolean or array.\<close>

fun get_prop :: "string \<Rightarrow> json \<Rightarrow> json option" where
  "get_prop k (JObj kvs) = map_of kvs k"
| "get_prop k v = None"

text \<open>What a rejected promise or a \<open>throw\<close> carries: the two properties the code inspects,
  each absent (\<open>None\<close>) when the thrown value does not have it.\<close>

record thrown =
  message :: "string option"
  status :: "int option"

datatype failure = Rejected thrown | SyntaxError | TypeError

text \<open>\<open>String.prototype.includes\<close>.\<close>

fun str_includes :: "string \<Rightarrow> string \<Rightarrow> bool" where
  "str_includes [] pat = (pat = [])"
| "str_includes (c # cs) pat = (prefix pat (c # cs) \<or> str_includes cs pat)"

section \<open>geminiService: the guarded weather fetch\<close>

text \<open>
  The module keeps its state in \<open>localStorage\<close> and talks to a remote model. Here
  \<open>localStorage\<close> holds the texts this module has written and its calls do not throw.
  Whether constructing the client throws, and what each remote call does, are arguments of
  the functions below.
\<close>

definition WEATHER_CACHE_PREFIX :: string where
  "WEATHER_CACHE_PREFIX = ''ws_weather_''"

definition COOLDOWN_KEY :: string where
  "COOLDOWN_KEY = ''ws_weather_cooldown''"

definition CACHE_DURATION :: int where
  "CACHE_DURATION = 4 * 60 * 60 * 1000"

definition COOLDOWN_DURATION :: int where
  "COOLDOWN_DURATION = 15 * 60 * 1000"

text \<open>
  The texts this module writes to \<open>localStorage\<close>, each named by what was serialised:
  \<open>Number_text n\<close> is \<open>n.toString()\<close> (the cooldown stamp) and \<open>Entry_text d t\<close> is
  \<open>JSON.stringify({data: d, timestamp: t})\<close> (a cache entry). Both live in one key space,
  as in the source: the cooldown key is itself a key with the cache prefix.
\<close>

datatype item = Number_text int | Entry_text json int

type_synonym weather_store = "string \<rightharpoonup> item"

text \<open>\<open>parseInt\<close> of a stored text; \<open>None\<close> is \<open>NaN\<close> (the entry text starts with a brace).\<close>

fun parseInt :: "item \<Rightarrow> int option" where
  "parseInt (Number_text n) = Some n"
| "parseInt (Entry_text d t) = None"

text \<open>\<open>JSON.parse(cached).data\<close> and \<open>JSON.parse(cached).timestamp\<close>; a number has neither.\<close>

fun parsed_data :: "item \<Rightarrow> json option" where
  "parsed_data (Entry_text d t) = Some d"
| "parsed_data (Number_text n) = None"

fun parsed_timestamp :: "item \<Rightarrow> int option" where
  "parsed_timestamp (Entry_text d t) = Some t"
| "parsed_timestamp (Number_text n) = None"

text \<open>
  The state a fetch runs in: the stored items, the clock (\<open>Date.now()\<close>, milliseconds) and
  a trace of what was awaited, in order. Awaiting a network call or a timer moves the clock.
\<close>

datatype event = Net_call | Sleep int

record world =
  items :: weather_store
  now :: int
  trace :: "event list"

definition getItem :: "string \<Rightarrow> world \<Rightarrow> item option" where
  "getItem k w = items w k"

definition setItem :: "string \<Rightarrow> item \<Rightarrow> world \<Rightarrow> world" where
  "setItem k v w = w\<lparr>items := (items w)(k \<mapsto> v)\<rparr>"

text \<open>The remote service: the \<open>i\<close>-th call takes some time and then resolves (\<open>Inr\<close>) or
  rejects (\<open>Inl\<close>).\<close>

type_synonym 'r remote = "nat \<Rightarrow> nat \<times> (thrown + 'r)"

definition await_call :: "'r remote \<Rightarrow> nat \<Rightarrow> world \<Rightarrow> world" where
  "await_call fn i w = w\<lparr>now := now w + int (fst (fn i)), trace := trace w @ [Net_call]\<rparr>"

definition await_timeout :: "int \<Rightarrow> world \<Rightarrow> world" where
  "await_timeout delay w = w\<lparr>now := now w + delay, trace := trace w @ [Sleep delay]\<rparr>"

definition isRateLimit :: "thrown \<Rightarrow> bool" where
  "isRateLimit error =
     ((case message error of Some m \<Rightarrow> str_includes m ''429'' | None \<Rightarrow> False)
      \<or> status error = Some 429
      \<or> (case message error of Some m \<Rightarrow> str_includes m ''RESOURCE_EXHAUSTED'' | None \<Rightarrow> False))"

text \<open>The \<open>catch\<close> block's first statement: a rate-limit error stamps the cooldown.\<close>

definition note_rate_limit :: "thrown \<Rightarrow> world \<Rightarrow> world" where
  "note_rate_limit error w =
     (if isRateLimit error
      then setItem COOLDOWN_KEY (Number_text (now w + COOLDOWN_DURATION)) w
      else w)"

text \<open>The loop of \<open>retryWithBackoff\<close>, entered at iteration \<open>i\<close> with the current \<open>delay\<close>.\<close>

function retry_from :: "'r remote \<Rightarrow> int \<Rightarrow> nat \<Rightarrow> int \<Rightarrow> world \<Rightarrow> (thrown + 'r) \<times> world" where
  "retry_from fn maxRetries i delay w =
     (if int i \<le> maxRetries then
        (case snd (fn i) of
           Inr v \<Rightarrow> (Inr v, await_call fn i w)
         | Inl error \<Rightarrow>
             (if int i < maxRetries \<and> isRateLimit error
              then retry_from fn maxRetries (Suc i) (delay * 2)
                     (await_timeout delay (note_rate_limit error (await_call fn i w)))
              else (Inl error, note_rate_limit error (await_call fn i w))))
      else (Inl \<lparr>message = Some ''Max retries exceeded'', status = None\<rparr>, w))"
  by pat_completeness auto
termination
  by (relation "measure (\<lambda>(fn, maxRetries, i, delay, w). nat (maxRetries + 1 - int i))") auto

declare retry_from.simps [simp del]

definition retryWithBackoff :: "'r remote \<Rightarrow> int \<Rightarrow> int \<Rightarrow> world \<Rightarrow> (thrown + 'r) \<times> world" where
  "retryWithBackoff fn maxRetries initialDelay w = retry_from fn maxRetries 0 initialDelay w"

text \<open>\<open>toLowerCase\<close> on the code units below 256, and \<open>replace(/\s+/g, '_')\<close>: every maximal
  run of white space becomes one underscore.\<close>

definition is_upper :: "char \<Rightarrow> bool" where
  "is_upper c =
     (let n = (of_char c :: nat)
      in (65 \<le> n \<and> n \<le> 90) \<or> (192 \<le> n \<and> n \<le> 214) \<or> (216 \<le> n \<and> n \<le> 222))"

definition lower_char :: "char \<Rightarrow> char" where
  "lower_char c = (if is_upper c then char_of (of_char c + (32::nat)) else c)"

definition toLowerCase :: "string \<Rightarrow> string" where
  "toLowerCase s = map lower_char s"

definition is_space :: "char \<Rightarrow> bool" where
  "is_space c = ((of_char c :: nat) \<in> {9, 10, 11, 12, 13, 32, 160})"

fun replace_spaces :: "bool \<Rightarrow> string \<Rightarrow> string" where
  "replace_spaces in_run [] = []"
| "replace_spaces in_run (c # cs) =
     (if is_space c
      then (if in_run then replace_spaces True cs else CHR ''_'' # replace_spaces True cs)
      else c # replace_spaces False cs)"

definition cacheKey :: "string \<Rightarrow> string" where
  "cacheKey city = WEATHER_CACHE_PREFIX @ replace_spaces False (toLowerCase city)"

text \<open>The model's reply: \<open>response.text\<close> is missing or empty (\<open>No_text\<close>), is the JSON text of
  a value, or is a text that \<open>JSON.parse\<close> rejects.\<close>

datatype gen_response = No_text | Json_text json | Bad_text

text \<open>\<open>JSON.parse(response.text || '{}')\<close>.\<close>

fun parse_payload :: "gen_response \<Rightarrow> failure + json" where
  "parse_payload No_text = Inr (JObj [])"
| "parse_payload (Json_text j) = Inr j"
| "parse_payload Bad_text = Inl SyntaxError"

text \<open>The circuit-breaker test: \<open>cooldownUntil && Date.now() < parseInt(cooldownUntil)\<close>.\<close>

definition cooldown_active :: "world \<Rightarrow> bool" where
  "cooldown_active w =
     (case getItem COOLDOWN_KEY w of
        None \<Rightarrow> False
      | Some cooldownUntil \<Rightarrow>
          (case parseInt cooldownUntil of None \<Rightarrow> False | Some until \<Rightarrow> now w < until))"

text \<open>\<open>if (cached) return JSON.parse(cached).data; return null\<close>, used by the cooldown branch
  and by the \<open>catch\<close> block.\<close>

definition cached_or_null :: "item option \<Rightarrow> json option" where
  "cached_or_null cached = (case cached of Some c \<Rightarrow> parsed_data c | None \<Rightarrow> Some JNull)"

text \<open>Step 2: \<open>const {data, timestamp} = JSON.parse(cached)\<close> and the freshness test; the
  result is \<open>Some data\<close> when the entry is returned. A missing timestamp makes the
  difference \<open>NaN\<close>, and the comparison false.\<close>

definition fresh_hit :: "item option \<Rightarrow> int \<Rightarrow> json option option" where
  "fresh_hit cached t =
     (case cached of
        None \<Rightarrow> None
      | Some c \<Rightarrow>
          (case parsed_timestamp c of
             None \<Rightarrow> None
           | Some timestamp \<Rightarrow> if t - timestamp < CACHE_DURATION then Some (parsed_data c) else None))"

text \<open>The body of the \<open>try\<close> block of step 3.\<close>

definition request_weather :: "gen_response remote \<Rightarrow> string \<Rightarrow> world \<Rightarrow> (failure + json option) \<times> world" where
  "request_weather ai key w =
     (case retryWithBackoff ai 1 3000 w of
        (Inl e, w1) \<Rightarrow> (Inl (Rejected e), w1)
      | (Inr response, w1) \<Rightarrow>
          (case parse_payload response of
             Inl e \<Rightarrow> (Inl e, w1)
           | Inr weatherData \<Rightarrow>
               (if weatherData = JNull then (Inl TypeError, w1)
                else if get_prop ''temp'' weatherData \<noteq> None
                then (Inr (Some weatherData), setItem key (Entry_text weatherData (now w1)) w1)
                else (Inr (Some JNull), w1))))"

text \<open>\<open>getCityWeather\<close>. The argument \<open>made\<close> is how \<open>new GoogleGenAI(...)\<close> ends: it stands
  between the cache check and the \<open>try\<close> block, so what it throws leaves the function.\<close>

definition getCityWeather ::
  "thrown + unit \<Rightarrow> gen_response remote \<Rightarrow> string \<Rightarrow> world \<Rightarrow> (failure + json option) \<times> world" where
  "getCityWeather made ai city w =
     (if city = [] then (Inr (Some JNull), w)
      else if cooldown_active w then (Inr (cached_or_null (getItem (cacheKey city) w)), w)
      else
        (let cached = getItem (cacheKey city) w in
         case fresh_hit cached (now w) of
           Some data \<Rightarrow> (Inr data, w)
         | None \<Rightarrow>
             (case made of
                Inl e \<Rightarrow> (Inl (Rejected e), w)
              | Inr client \<Rightarrow>
                  (case request_weather ai (cacheKey city) w of
                     (Inr v, w1) \<Rightarrow> (Inr v, w1)
                   | (Inl e, w1) \<Rightarrow> (Inr (cached_or_null cached), w1)))))"

section \<open>App: the trip document, its storage and its synchronisation\<close>

text \<open>
  The \<open>Trip\<close> interface: the two properties the synchronisation code reads, and all the
  others (name, dates, events, flights, ..., budget) as the object's remaining properties.
\<close>

record Trip =
  trip_id :: string
  lastSynced :: "string option"
  properties :: "(string \<times> json) list"

definition APP_VERSION :: string where
  "APP_VERSION = ''v0.1.0-sync-fix''"

text \<open>The body of the POST: \<open>{...trip, clientVersion: APP_VERSION, pushedAt: ...}\<close>.\<close>

record payload =
  document :: Trip
  clientVersion :: string
  pushedAt :: string

text \<open>
  What lies outside the component: the two \<open>localStorage\<close> items of this module, under
  \<open>STORAGE_KEY\<close> (the JSON text of a trip) and under \<open>PENDING_SYNC_KEY\<close>, and the POST
  requests handed to \<open>fetch\<close> so far.
\<close>

record browser =
  stored_trip :: "Trip option"
  stored_pending :: "string option"
  posted :: "payload list"

text \<open>The value \<open>response.json()\<close> resolves to, by what \<open>data && data.id\<close> can see of it:
  a falsy value (\<open>null\<close>, \<open>false\<close>, \<open>0\<close>, the empty string), a truthy value that has no
  \<open>id\<close>, or an object of the shape the \<open>Trip\<close> interface declares, whose \<open>id\<close> is a string.\<close>

datatype pulled = Falsy_value | Value_without_id | Trip_value Trip

record http_response =
  ok :: bool
  json_body :: "failure + pulled"

text \<open>A string or \<open>undefined\<close> in a condition, and \<open>s || other\<close>.\<close>

definition truthy :: "string option \<Rightarrow> bool" where
  "truthy s = (case s of None \<Rightarrow> False | Some v \<Rightarrow> v \<noteq> [])"

definition or_else :: "string option \<Rightarrow> string \<Rightarrow> string" where
  "or_else s other = (case s of None \<Rightarrow> other | Some v \<Rightarrow> if v \<noteq> [] then v else other)"

fun data_truthy :: "pulled \<Rightarrow> bool" where
  "data_truthy Falsy_value = False"
| "data_truthy d = True"

fun data_id :: "pulled \<Rightarrow> string option" where
  "data_id (Trip_value t) = Some (trip_id t)"
| "data_id d = None"

text \<open>\<open>data as Trip\<close>, for a value that has passed the test.\<close>

fun as_Trip :: "pulled \<Rightarrow> Trip option" where
  "as_Trip (Trip_value t) = Some t"
| "as_Trip d = None"

text \<open>\<open>pushToCloud\<close>; the argument \<open>sent\<close> is how the awaited \<open>fetch\<close> settles.\<close>

definition pushToCloud :: "thrown + unit \<Rightarrow> string \<Rightarrow> Trip \<Rightarrow> browser \<Rightarrow> bool \<times> browser" where
  "pushToCloud sent stamp t b =
     (let b1 = b\<lparr>posted := posted b @ [\<lparr>document = t, clientVersion = APP_VERSION, pushedAt = stamp\<rparr>]\<rparr>
      in case sent of
           Inr u \<Rightarrow> (True, b1\<lparr>stored_pending := None\<rparr>)
         | Inl e \<Rightarrow> (False, b1\<lparr>stored_pending := Some ''true''\<rparr>))"

text \<open>\<open>pullFromCloud\<close>: the body of its \<open>try\<close> block, then the function with its \<open>catch\<close>.\<close>

definition pull_request :: "thrown + http_response \<Rightarrow> failure + Trip option" where
  "pull_request got =
     (case got of
        Inl e \<Rightarrow> Inl (Rejected e)
      | Inr response \<Rightarrow>
          (if \<not> ok response then Inr None
           else (case json_body response of
                   Inl e \<Rightarrow> Inl e
                 | Inr data \<Rightarrow>
                     Inr (if data_truthy data \<and> truthy (data_id data) then as_Trip data else None))))"

definition pullFromCloud :: "thrown + http_response \<Rightarrow> failure + Trip option" where
  "pullFromCloud got = (case pull_request got of Inr r \<Rightarrow> Inr r | Inl e \<Rightarrow> Inr None)"

text \<open>
  A timer set by \<open>setTimeout\<close>: when it is due, and the \<open>trip\<close> and \<open>isOnline\<close> its callback
  closed over. The component's state follows: the \<open>useState\<close> values, the timer id held by
  \<open>debounceTimerRef\<close>, the timers that are set and have neither fired nor been cleared, with
  their ids, and the id handed out last (ids are positive).
\<close>

record timeout =
  due :: int
  closed_trip :: Trip
  closed_isOnline :: bool

record app =
  browser :: browser
  trip :: "Trip option"
  isOnline :: bool
  syncing :: bool
  lastSyncedAt :: "string option"
  hasPendingSync :: bool
  debounceTimerRef :: "nat option"
  timers :: "(nat \<times> timeout) list"
  last_timer :: nat

text \<open>The initial values of \<open>useState\<close> and \<open>useRef\<close>, on a load or a reload.\<close>

definition initial_app :: "browser \<Rightarrow> bool \<Rightarrow> app" where
  "initial_app b online =
     \<lparr>browser = b, trip = None, isOnline = online, syncing = False, lastSyncedAt = None,
      hasPendingSync = (stored_pending b = Some ''true''), debounceTimerRef = None,
      timers = [], last_timer = 0\<rparr>"

text \<open>\<open>handleUpdateAndSync\<close>; \<open>stamp\<close> is \<open>new Date().toISOString()\<close>.\<close>

definition handleUpdateAndSync :: "string \<Rightarrow> Trip \<Rightarrow> app \<Rightarrow> app" where
  "handleUpdateAndSync stamp updatedTrip a =
     (let tripWithTimestamp = updatedTrip\<lparr>lastSynced := Some stamp\<rparr>
      in a\<lparr>trip := Some tripWithTimestamp,
           browser := (browser a)\<lparr>stored_trip := Some tripWithTimestamp\<rparr>\<rparr>)"

definition clearTimeout :: "nat \<Rightarrow> app \<Rightarrow> app" where
  "clearTimeout i a = a\<lparr>timers := filter (\<lambda>p. fst p \<noteq> i) (timers a)\<rparr>"

definition setTimeout :: "timeout \<Rightarrow> app \<Rightarrow> nat \<times> app" where
  "setTimeout tm a =
     (Suc (last_timer a),
      a\<lparr>timers := timers a @ [(Suc (last_timer a), tm)], last_timer := Suc (last_timer a)\<rparr>)"

text \<open>\<open>if (debounceTimerRef.current) clearTimeout(debounceTimerRef.current)\<close>.\<close>

definition clear_debounce :: "app \<Rightarrow> app" where
  "clear_debounce a =
     (case debounceTimerRef a of
        None \<Rightarrow> a
      | Some i \<Rightarrow> if i \<noteq> 0 then clearTimeout i a else a)"

text \<open>
  The debounced auto-sync effect, run at time \<open>t\<close> after a render in which \<open>trip\<close> or
  \<open>isOnline\<close> changed: first the cleanup the previous run returned, then the body. (A run
  that returned no cleanup left no timer of its own, so clearing is then without effect.)
\<close>

definition autoSync_effect :: "int \<Rightarrow> app \<Rightarrow> app" where
  "autoSync_effect t a =
     (let a1 = clear_debounce a in
      case trip a1 of
        None \<Rightarrow> a1
      | Some tr \<Rightarrow>
          (case setTimeout \<lparr>due = t + 2000, closed_trip = tr, closed_isOnline = isOnline a1\<rparr>
                  (clear_debounce a1) of
             (i, a2) \<Rightarrow> a2\<lparr>debounceTimerRef := Some i\<rparr>))"

text \<open>The timer's callback; \<open>stamp\<close> is the ISO text of the time it starts at and
  \<open>settled\<close> that of the time the push has settled at.\<close>

definition timer_callback :: "thrown + unit \<Rightarrow> string \<Rightarrow> string \<Rightarrow> timeout \<Rightarrow> app \<Rightarrow> app" where
  "timer_callback sent stamp settled tm a =
     (if closed_isOnline tm then
        (case pushToCloud sent stamp (closed_trip tm) (browser a) of
           (True, b) \<Rightarrow>
             a\<lparr>browser := b,
               lastSyncedAt := Some (or_else (lastSynced (closed_trip tm)) settled),
               hasPendingSync := False, syncing := False\<rparr>
         | (False, b) \<Rightarrow> a\<lparr>browser := b, hasPendingSync := True, syncing := False\<rparr>)
      else a\<lparr>browser := (browser a)\<lparr>stored_pending := Some ''true''\<rparr>, hasPendingSync := True\<rparr>)"

text \<open>
  Time passes up to \<open>t\<close>: the timers due by then fire, each at its due time, the earliest
  first. \<open>net\<close> says how long the POST of a trip takes and how it settles, and \<open>toISOString\<close>
  renders a time as \<open>Date.prototype.toISOString\<close> does.
\<close>

type_synonym uplink = "Trip \<Rightarrow> nat \<times> (thrown + unit)"

fun run_timers :: "uplink \<Rightarrow> (int \<Rightarrow> string) \<Rightarrow> (nat \<times> timeout) list \<Rightarrow> app \<Rightarrow> app" where
  "run_timers net toISOString [] a = a"
| "run_timers net toISOString ((i, tm) # rest) a =
     run_timers net toISOString rest
       (timer_callback (snd (net (closed_trip tm))) (toISOString (due tm))
          (toISOString (due tm + int (fst (net (closed_trip tm))))) tm a)"

definition elapse :: "uplink \<Rightarrow> (int \<Rightarrow> string) \<Rightarrow> int \<Rightarrow> app \<Rightarrow> app" where
  "elapse net toISOString t a =
     run_timers net toISOString
       (sort_key (\<lambda>p. due (snd p)) (filter (\<lambda>p. due (snd p) \<le> t) (timers a)))
       (a\<lparr>timers := filter (\<lambda>p. \<not> due (snd p) \<le> t) (timers a)\<rparr>)"

text \<open>One local edit at time \<open>t\<close>: the handler, then the effect of the render it causes.\<close>

definition local_edit :: "(int \<Rightarrow> string) \<Rightarrow> int \<Rightarrow> Trip \<Rightarrow> app \<Rightarrow> app" where
  "local_edit toISOString t updatedTrip a = autoSync_effect t (handleUpdateAndSync (toISOString t) updatedTrip a)"

text \<open>A run of edits, each given with its time; between two of them time passes.\<close>

fun edit_run :: "uplink \<Rightarrow> (int \<Rightarrow> string) \<Rightarrow> (int \<times> Trip) list \<Rightarrow> app \<Rightarrow> app" where
  "edit_run net toISOString [] a = a"
| "edit_run net toISOString ((t, updatedTrip) # es) a =
     edit_run net toISOString es (local_edit toISOString t updatedTrip (elapse net toISOString t a))"

text \<open>\<open>a > b\<close> for two values that are strings or \<open>undefined\<close>; it is reached only when
  both are truthy, and is false when either is \<open>undefined\<close>.\<close>

definition js_greater :: "string option \<Rightarrow> string option \<Rightarrow> bool" where
  "js_greater x y = (case (x, y) of (Some u, Some v) \<Rightarrow> u > v | other \<Rightarrow> False)"

text \<open>The merge condition:
  \<open>!localData || (cloudData.lastSynced && localData.lastSynced && cloudData.lastSynced > localData.lastSynced)\<close>.\<close>

definition cloud_wins :: "Trip option \<Rightarrow> Trip \<Rightarrow> bool" where
  "cloud_wins localData cloudData =
     (case localData of
        None \<Rightarrow> True
      | Some l \<Rightarrow>
          truthy (lastSynced cloudData) \<and> truthy (lastSynced l)
          \<and> js_greater (lastSynced cloudData) (lastSynced l))"

text \<open>\<open>performInitialPull\<close>; \<open>onLine\<close> is \<open>navigator.onLine\<close> and \<open>got\<close> is how the GET settles.\<close>

definition performInitialPull :: "bool \<Rightarrow> thrown + http_response \<Rightarrow> app \<Rightarrow> app" where
  "performInitialPull onLine got a =
     (if \<not> onLine then a
      else
        (case pullFromCloud got of
           Inl e \<Rightarrow> a\<lparr>syncing := True\<rparr>
         | Inr None \<Rightarrow> a\<lparr>syncing := False\<rparr>
         | Inr (Some cloudData) \<Rightarrow>
             (if cloud_wins (stored_trip (browser a)) cloudData
              then a\<lparr>trip := Some cloudData,
                     browser := (browser a)\<lparr>stored_trip := Some cloudData, stored_pending := None\<rparr>,
                     lastSyncedAt :=
                       (if truthy (lastSynced cloudData) then lastSynced cloudData else lastSyncedAt a),
                     hasPendingSync := False,
                     syncing := False\<rparr>
              else a\<lparr>syncing := False\<rparr>)))"

section \<open>Stamps and instants\<close>

text \<open>
  \<open>lastSynced\<close> is written by \<open>new Date().toISOString()\<close>, which renders a UTC time, for
  the years 0 to 9999, as \<open>YYYY-MM-DDTHH:mm:ss.sssZ\<close> with every field padded to its width.
  \<open>earlier\<close> is the order of instants, on the fields of the UTC time; the code never
  computes it, it compares the strings.
\<close>

record utc =
  year :: nat
  month :: nat
  day :: nat
  hour :: nat
  minute :: nat
  second :: nat
  millis :: nat

definition in_calendar :: "utc \<Rightarrow> bool" where
  "in_calendar u =
     (year u \<le> 9999 \<and> 1 \<le> month u \<and> month u \<le> 12 \<and> 1 \<le> day u \<and> day u \<le> 31
      \<and> hour u < 24 \<and> minute u < 60 \<and> second u < 60 \<and> millis u < 1000)"

definition digit :: "nat \<Rightarrow> char" where
  "digit n = char_of (48 + n)"

fun pad :: "nat \<Rightarrow> nat \<Rightarrow> string" where
  "pad 0 n = []"
| "pad (Suc k) n = pad k (n div 10) @ [digit (n mod 10)]"

definition toISOString_utc :: "utc \<Rightarrow> string" where
  "toISOString_utc u =
     pad 4 (year u) @ ''-'' @ pad 2 (month u) @ ''-'' @ pad 2 (day u) @ ''T''
     @ pad 2 (hour u) @ '':'' @ pad 2 (minute u) @ '':'' @ pad 2 (second u) @ ''.''
     @ pad 3 (millis u) @ ''Z''"

definition earlier :: "utc \<Rightarrow> utc \<Rightarrow> bool" where
  "earlier u v =
     (year u < year v \<or> year u = year v \<and>
     (month u < month v \<or> month u = month v \<and>
     (day u < day v \<or> day u = day v \<and>
     (hour u < hour v \<or> hour u = hour v \<and>
     (minute u < minute v \<or> minute u = minute v \<and>
     (second u < second v \<or> second u = second v \<and> millis u < millis v))))))"

section \<open>Observations and sample states\<close>

text \<open>What a trace shows: the number of network calls and the delays waited, in order; the
  events a run added to a trace; whether the \<open>i\<close>-th call is rejected with a rate-limit-class
  error.\<close>

fun calls :: "event list \<Rightarrow> nat" where
  "calls [] = 0"
| "calls (Net_call # evs) = Suc (calls evs)"
| "calls (Sleep d # evs) = calls evs"

fun sleeps :: "event list \<Rightarrow> int list" where
  "sleeps [] = []"
| "sleeps (Net_call # evs) = sleeps evs"
| "sleeps (Sleep d # evs) = d # sleeps evs"

definition new_events :: "world \<Rightarrow> world \<Rightarrow> event list" where
  "new_events w w' = drop (length (trace w)) (trace w')"

definition rate_limited :: "'r remote \<Rightarrow> nat \<Rightarrow> bool" where
  "rate_limited fn i = (case snd (fn i) of Inl error \<Rightarrow> isRateLimit error | Inr v \<Rightarrow> False)"

text \<open>A document as an edit leaves it, a run of edits in which each edit comes less than two
  seconds after the one before, and the condition that every timer still set is the one
  \<open>debounceTimerRef\<close> holds (true on a load, and kept by every operation below).\<close>

definition stamped :: "(int \<Rightarrow> string) \<Rightarrow> int \<times> Trip \<Rightarrow> Trip" where
  "stamped toISOString e = (snd e)\<lparr>lastSynced := Some (toISOString (fst e))\<rparr>"

fun within_window :: "int \<Rightarrow> (int \<times> Trip) list \<Rightarrow> bool" where
  "within_window prev [] = True"
| "within_window prev ((t, d) # es) = (prev \<le> t \<and> t < prev + 2000 \<and> within_window t es)"

definition sole_timer :: "app \<Rightarrow> bool" where
  "sole_timer a = (\<forall>p \<in> set (timers a). fst p \<noteq> 0 \<and> debounceTimerRef a = Some (fst p))"

text \<open>Sample states and networks, for instantiating the theorems below: a cache entry for
  Paris written at time 1000, a store where it is stale, the same with the circuit breaker
  open, and four behaviours of the remote model.\<close>

definition paris_entry :: item where
  "paris_entry = Entry_text (JObj [(''temp'', JNum 21), (''condition'', JStr ''Sunny'')]) 1000"

definition stale_world :: world where
  "stale_world = \<lparr>items = [''ws_weather_paris'' \<mapsto> paris_entry], now = 20000000, trace = []\<rparr>"

definition cooling_world :: world where
  "cooling_world =
     \<lparr>items = [''ws_weather_paris'' \<mapsto> paris_entry, COOLDOWN_KEY \<mapsto> Number_text 20000500],
      now = 20000000, trace = []\<rparr>"



definition always_429 :: "gen_response remote" where
  "always_429 i = (80, Inl \<lparr>message = Some ''got status: 429 Too Many Requests'', status = Some 429\<rparr>)"


definition always_offline :: "gen_response remote" where
  "always_offline i = (5, Inl \<lparr>message = Some ''Failed to fetch'', status = None\<rparr>)"

text \<open>Stores for the city named Cooldown, whose cache key is the cooldown key: one where
  that key holds a cooldown stamp that has run out, one where it holds a cache entry that
  is stale, and an empty one.\<close>

definition expired_world :: world where
  "expired_world = \<lparr>items = [COOLDOWN_KEY \<mapsto> Number_text 1000], now = 20000000, trace = []\<rparr>"



text \<open>Two versions of one trip, a response that serves a trip, a component that holds a
  stored trip, a first run on an empty store, a clock rendering and an uplink that works.\<close>

definition jan1 :: utc where
  "jan1 = \<lparr>year = 2026, month = 1, day = 1, hour = 0, minute = 0, second = 0, millis = 0\<rparr>"

definition jan2 :: utc where
  "jan2 = \<lparr>year = 2026, month = 1, day = 2, hour = 0, minute = 0, second = 0, millis = 0\<rparr>"

definition trip_jan1 :: Trip where
  "trip_jan1 = \<lparr>trip_id = ''t1burning'', lastSynced = Some ''2026-01-01T00:00:00.000Z'',
                 properties = [(''name'', JStr ''JC US Trip 2026'')]\<rparr>"

definition trip_jan2 :: Trip where
  "trip_jan2 = \<lparr>trip_id = ''t1burning'', lastSynced = Some ''2026-01-02T00:00:00.000Z'',
                 properties = [(''name'', JStr ''JC US Trip 2026''), (''budget'', JNum 50000)]\<rparr>"

definition served :: "Trip \<Rightarrow> thrown + http_response" where
  "served t = Inr \<lparr>ok = True, json_body = Inr (Trip_value t)\<rparr>"

definition holding :: "Trip \<Rightarrow> app" where
  "holding t = (initial_app \<lparr>stored_trip = Some t, stored_pending = None, posted = []\<rparr> True)\<lparr>trip := Some t\<rparr>"

definition first_run :: app where
  "first_run = initial_app \<lparr>stored_trip = None, stored_pending = Some ''true'', posted = []\<rparr> True"

definition sample_clock :: "int \<Rightarrow> string" where
  "sample_clock t =
     (if t = 0 then ''2026-01-02T00:00:00.000Z''
      else if t = 500 then ''2026-01-02T00:00:00.500Z''
      else if t = 2500 then ''2026-01-02T00:00:02.500Z''
      else ''2026-01-02T00:00:02.600Z'')"

definition uplink_ok :: uplink where
  "uplink_ok t = (100, Inr ())"

section \<open>The retry loop\<close>

lemma retry_from_beyond: "\<not> int i \<le> m \<Longrightarrow> retry_from fn m i d w = (Inl \<lparr>message = Some ''Max retries exceeded'', status = None\<rparr>, w)"
  by (simp add: retry_from.simps)

lemma retryWithBackoff_default:
  "retryWithBackoff fn 1 3000 w =
     (case snd (fn 0) of
        Inr v \<Rightarrow> (Inr v, await_call fn 0 w)
      | Inl e0 \<Rightarrow>
          if isRateLimit e0 then
            (case snd (fn 1) of
               Inr v \<Rightarrow> (Inr v, await_call fn 1 (await_timeout 3000 (note_rate_limit e0 (await_call fn 0 w))))
             | Inl e1 \<Rightarrow> (Inl e1, note_rate_limit e1 (await_call fn 1 (await_timeout 3000 (note_rate_limit e0 (await_call fn 0 w))))))
          else (Inl e0, note_rate_limit e0 (await_call fn 0 w)))"
  unfolding retryWithBackoff_def
  apply (subst retry_from.simps)
  apply (subst retry_from.simps)
  apply (simp split: sum.splits)
  done

lemma trace_note [simp]: "trace (note_rate_limit e w) = trace w"
  by (simp add: note_rate_limit_def setItem_def)

lemma now_note [simp]: "now (note_rate_limit e w) = now w"
  by (simp add: note_rate_limit_def setItem_def)

lemma trace_await_call [simp]: "trace (await_call fn i w) = trace w @ [Net_call]"
  by (simp add: await_call_def)

lemma trace_await_timeout [simp]: "trace (await_timeout d w) = trace w @ [Sleep d]"
  by (simp add: await_timeout_def)

lemma items_await_call [simp]: "items (await_call fn i w) = items w"
  by (simp add: await_call_def)

lemma items_await_timeout [simp]: "items (await_timeout d w) = items w"
  by (simp add: await_timeout_def)

lemma now_await_call [simp]: "now (await_call fn i w) = now w + int (fst (fn i))"
  by (simp add: await_call_def)

lemma now_await_timeout [simp]: "now (await_timeout d w) = now w + d"
  by (simp add: await_timeout_def)

lemma items_note:
  "items (note_rate_limit e w) =
     (if isRateLimit e then (items w)(COOLDOWN_KEY \<mapsto> Number_text (now w + COOLDOWN_DURATION)) else items w)"
  by (simp add: note_rate_limit_def setItem_def)

lemma calls_append [simp]: "calls (xs @ ys) = calls xs + calls ys"
  by (induction xs rule: calls.induct) auto

lemma sleeps_append [simp]: "sleeps (xs @ ys) = sleeps xs @ sleeps ys"
  by (induction xs rule: sleeps.induct) auto

lemma map_upt_head:
  "1 \<le> n \<Longrightarrow> map f [0..<n] = f 0 # map (\<lambda>k. f (Suc k)) [0..<n - 1]"
  by (cases n) (simp_all add: upt_conv_Cons map_Suc_upt [symmetric] del: upt_Suc)

lemma retry_from_trace:
  "\<exists>evs. trace (snd (retry_from fn m i d w)) = trace w @ evs
        \<and> calls evs \<le> nat (m + 1 - int i)
        \<and> (int i \<le> m \<longrightarrow> 1 \<le> calls evs)
        \<and> sleeps evs = map (\<lambda>k. d * 2 ^ k) [0..<calls evs - 1]"
proof (induction fn m i d w rule: retry_from.induct)
  case (1 fn m i d w)
  show ?case
  proof (cases "int i \<le> m")
    case False
    then show ?thesis by (simp add: retry_from_beyond)
  next
    case le: True
    show ?thesis
    proof (cases "snd (fn i)")
      case (Inr v)
      with le show ?thesis
        by (subst retry_from.simps) (auto intro!: exI[of _ "[Net_call]"])
    next
      case (Inl e)
      show ?thesis
      proof (cases "int i < m \<and> isRateLimit e")
        case False
        with le Inl show ?thesis
          by (subst retry_from.simps) (auto intro!: exI[of _ "[Net_call]"])
      next
        case True
        from "1.IH"[OF le Inl True] obtain evs where
          evs: "trace (snd (retry_from fn m (Suc i) (d * 2) (await_timeout d (note_rate_limit e (await_call fn i w)))))
                 = trace (await_timeout d (note_rate_limit e (await_call fn i w))) @ evs"
            "calls evs \<le> nat (m + 1 - int (Suc i))"
            "int (Suc i) \<le> m \<longrightarrow> 1 \<le> calls evs"
            "sleeps evs = map (\<lambda>k. (d * 2) * 2 ^ k) [0..<calls evs - 1]"
          by blast
        from True evs(3) have pos: "1 \<le> calls evs" by simp
        have sl: "d # map (\<lambda>k. (d * 2) * 2 ^ k) [0..<calls evs - 1] = map (\<lambda>k. d * 2 ^ k) [0..<calls evs]"
          using map_upt_head [OF pos, of "\<lambda>k. d * 2 ^ k"] by (simp add: mult.assoc)
        have tr: "trace (snd (retry_from fn m i d w)) = trace w @ ([Net_call, Sleep d] @ evs)"
          using le Inl True evs(1) by (subst retry_from.simps) simp
        show ?thesis
          apply (rule exI [of _ "[Net_call, Sleep d] @ evs"])
          using tr evs(2) evs(4) sl True by auto
      qed
    qed
  qed
qed


lemma default_calls:
  "calls (new_events w (snd (retryWithBackoff fn 1 3000 w))) = (if rate_limited fn 0 then 2 else 1)"
  by (simp add: retryWithBackoff_default new_events_def rate_limited_def split: sum.splits)

lemma default_sleeps:
  "sleeps (new_events w (snd (retryWithBackoff fn 1 3000 w))) = (if rate_limited fn 0 then [3000] else [])"
  by (simp add: retryWithBackoff_default new_events_def rate_limited_def split: sum.splits)

lemma default_cooldown:
  "items (snd (retryWithBackoff fn 1 3000 w)) =
     (if rate_limited fn 0
      then (items w)(COOLDOWN_KEY \<mapsto> Number_text
             ((if rate_limited fn 1
               then now w + int (fst (fn 0)) + 3000 + int (fst (fn 1))
               else now w + int (fst (fn 0))) + COOLDOWN_DURATION))
      else items w)"
  by (simp add: retryWithBackoff_default rate_limited_def items_note split: sum.splits)

lemma general_backoff:
  "sleeps (new_events w (snd (retryWithBackoff fn m d w)))
     = map (\<lambda>k. d * 2 ^ k) [0..<calls (new_events w (snd (retryWithBackoff fn m d w))) - 1]
   \<and> calls (new_events w (snd (retryWithBackoff fn m d w))) \<le> nat (m + 1)"
proof -
  obtain evs where "trace (snd (retry_from fn m 0 d w)) = trace w @ evs"
    "calls evs \<le> nat (m + 1 - int 0)" "sleeps evs = map (\<lambda>k. d * 2 ^ k) [0..<calls evs - 1]"
    using retry_from_trace [of fn m 0 d w] by blast
  then show ?thesis by (simp add: retryWithBackoff_def new_events_def)
qed

lemma default_frame:
  "k \<noteq> COOLDOWN_KEY \<Longrightarrow> items (snd (retryWithBackoff fn 1 3000 w)) k = items w k"
  by (simp add: default_cooldown)

text \<open>
  C5. The retry policy of the guarded fetch (\<open>retryWithBackoff\<close> with its defaults, one retry
  and 3000 ms): there is a second call exactly when the first is rejected with a
  rate-limit-class error, so at most one retry and only on such an error; the retry is
  preceded by a wait of the initial delay, and in general the \<open>k\<close>-th wait of a run is the
  initial delay doubled \<open>k\<close> times; and a rate-limit-class error on either attempt stamps the
  cooldown with the clock at that error plus \<open>COOLDOWN_DURATION\<close>, before any wait and whether
  or not a retry follows (the stamp of the second attempt replaces that of the first).
\<close>

theorem retry_policy:
  "calls (new_events w (snd (retryWithBackoff fn 1 3000 w))) = (if rate_limited fn 0 then 2 else 1)
   \<and> sleeps (new_events w (snd (retryWithBackoff fn 1 3000 w))) = (if rate_limited fn 0 then [3000] else [])
   \<and> (\<forall>m d. sleeps (new_events w (snd (retryWithBackoff fn m d w)))
               = map (\<lambda>k. d * 2 ^ k) [0..<calls (new_events w (snd (retryWithBackoff fn m d w))) - 1])
   \<and> items (snd (retryWithBackoff fn 1 3000 w)) =
       (if rate_limited fn 0
        then (items w)(COOLDOWN_KEY \<mapsto> Number_text
               ((if rate_limited fn 1
                 then now w + int (fst (fn 0)) + 3000 + int (fst (fn 1))
                 else now w + int (fst (fn 0))) + COOLDOWN_DURATION))
        else items w)"
  using default_calls default_sleeps default_cooldown general_backoff by blast


theorem retry_policy_witness:
  "rate_limited always_429 0
   \<and> calls (new_events stale_world (snd (retryWithBackoff always_429 1 3000 stale_world))) = 2
   \<and> sleeps (new_events stale_world (snd (retryWithBackoff always_429 1 3000 stale_world))) = [3000]
   \<and> sleeps (new_events stale_world (snd (retryWithBackoff always_429 3 3000 stale_world))) = [3000, 6000, 12000]
   \<and> items (snd (retryWithBackoff always_429 1 3000 stale_world)) COOLDOWN_KEY = Some (Number_text 20903160)
   \<and> \<not> rate_limited always_offline 0
   \<and> calls (new_events stale_world (snd (retryWithBackoff always_offline 1 3000 stale_world))) = 1
   \<and> items (snd (retryWithBackoff always_offline 1 3000 stale_world)) COOLDOWN_KEY = None"
proof -
  have four: "calls (new_events stale_world (snd (retryWithBackoff always_429 3 3000 stale_world))) = 4"
    by (simp add: retryWithBackoff_def retry_from.simps always_429_def isRateLimit_def new_events_def
        stale_world_def note_rate_limit_def setItem_def await_call_def await_timeout_def)
  have upt: "[0..<3] = [0, 1, 2]" by (simp add: upt_rec)
  show ?thesis
    using retry_policy [of stale_world always_429] retry_policy [of stale_world always_offline] four upt
    by (simp add: rate_limited_def always_429_def always_offline_def isRateLimit_def stale_world_def
        COOLDOWN_DURATION_def COOLDOWN_KEY_def)
qed

section \<open>The guarded fetch\<close>

lemma cacheKey_Paris: "cacheKey ''Paris'' = ''ws_weather_paris''"
  by code_simp

lemma cacheKey_Cooldown: "cacheKey ''Cooldown'' = ''ws_weather_cooldown''"
  by code_simp

lemma cooldown_active_iff:
  "cooldown_active w \<longleftrightarrow> (\<exists>until. items w COOLDOWN_KEY = Some (Number_text until) \<and> now w < until)"
  by (auto simp: cooldown_active_def getItem_def split: option.splits item.splits elim: parseInt.elims)

lemma request_weather_frame:
  "k \<noteq> COOLDOWN_KEY \<Longrightarrow> k \<noteq> key \<Longrightarrow> items (snd (request_weather ai key w)) k = items w k"
  using default_frame [of k ai w]
  by (auto simp: request_weather_def setItem_def split: prod.splits sum.splits)

lemma getCityWeather_frame:
  "k \<noteq> COOLDOWN_KEY \<Longrightarrow> k \<noteq> cacheKey city \<Longrightarrow> items (snd (getCityWeather made ai city w)) k = items w k"
  using request_weather_frame [of k "cacheKey city" ai w]
  by (auto simp: getCityWeather_def Let_def split: prod.splits sum.splits option.splits)

lemma replace_spaces_nonempty: "s \<noteq> [] \<Longrightarrow> replace_spaces False s \<noteq> []"
  by (cases s) auto

lemma cacheKey_not_prefix: "city \<noteq> [] \<Longrightarrow> cacheKey city \<noteq> WEATHER_CACHE_PREFIX"
  using replace_spaces_nonempty [of "toLowerCase city"]
  by (simp add: cacheKey_def toLowerCase_def)

text \<open>Nothing is ever stored under the bare prefix, the cache key of the empty city.\<close>

lemma bare_prefix_never_written:
  assumes "items w WEATHER_CACHE_PREFIX = None"
  shows "items (snd (getCityWeather made ai city w)) WEATHER_CACHE_PREFIX = None"
proof (cases "city = []")
  case True
  with assms show ?thesis by (simp add: getCityWeather_def)
next
  case False
  have "WEATHER_CACHE_PREFIX \<noteq> COOLDOWN_KEY"
    by (simp add: WEATHER_CACHE_PREFIX_def COOLDOWN_KEY_def)
  with assms False show ?thesis
    using getCityWeather_frame [of WEATHER_CACHE_PREFIX city made ai w] cacheKey_not_prefix [of city]
    by simp
qed

text \<open>
  The branch taken while the circuit breaker is open: no network call, nothing changed, and
  the result read off the item stored under the key's cache key, however old. The third
  case is the cooldown stamp itself, which has no \<open>data\<close>.
\<close>

lemma cooldown_branch:
  assumes "items w COOLDOWN_KEY = Some (Number_text until)" and "now w < until"
    and "city \<noteq> [] \<or> items w (cacheKey city) = None"
  shows "snd (getCityWeather made ai city w) = w
     \<and> calls (new_events w (snd (getCityWeather made ai city w))) = 0
     \<and> fst (getCityWeather made ai city w) =
         Inr (case items w (cacheKey city) of
                None \<Rightarrow> Some JNull
              | Some (Entry_text d t) \<Rightarrow> Some d
              | Some (Number_text n) \<Rightarrow> None)"
proof -
  from assms(1,2) have act: "cooldown_active w"
    by (auto simp: cooldown_active_iff)
  show ?thesis
  proof (cases "city = []")
    case True
    with assms(3) show ?thesis
      by (simp add: getCityWeather_def new_events_def)
  next
    case False
    with act show ?thesis
      by (simp add: getCityWeather_def new_events_def cached_or_null_def getItem_def
          split: option.splits item.splits)
  qed
qed

text \<open>
  C4. While the circuit breaker is open a fetch is to make no network call and to return
  the cached value for the key if a cache entry exists, else \<open>null\<close>. The code does so
  for every key but one. The cooldown stamp is kept under \<open>ws_weather_cooldown\<close>, which is
  also the cache key of the city named Cooldown; for that city, with the breaker open and
  no cache entry anywhere, the fetch takes the stamp for the entry and returns its \<open>data\<close>,
  which is \<open>undefined\<close>: neither a cached value nor \<open>null\<close>.
\<close>

theorem cooldown_at_cooldown_key:
  "cacheKey ''Cooldown'' = COOLDOWN_KEY
   \<and> items cooling_world COOLDOWN_KEY = Some (Number_text 20000500)
   \<and> now cooling_world < 20000500
   \<and> (\<forall>d t. items cooling_world (cacheKey ''Cooldown'') \<noteq> Some (Entry_text d t))
   \<and> getCityWeather (Inr ()) always_429 ''Cooldown'' cooling_world = (Inr None, cooling_world)
   \<and> fst (getCityWeather (Inr ()) always_429 ''Cooldown'' cooling_world) \<noteq> Inr (Some JNull)"
  by (simp add: getCityWeather_def cooldown_active_def getItem_def cached_or_null_def cacheKey_Cooldown
      cooling_world_def COOLDOWN_KEY_def)

text \<open>
  The \<open>catch\<close> block: when the network call fails, the result is read off the item that
  was stored under the key's cache key when the fetch began; and a fetch whose client is
  constructed returns. A constructor that throws is not caught.
\<close>

lemma failure_branch:
  assumes "city \<noteq> []" and "\<not> cooldown_active w"
    and "fresh_hit (getItem (cacheKey city) w) (now w) = None"
    and "fst (retryWithBackoff ai 1 3000 w) = Inl e"
  shows "fst (getCityWeather (Inr ()) ai city w) =
           Inr (case items w (cacheKey city) of
                  None \<Rightarrow> Some JNull
                | Some (Entry_text d t) \<Rightarrow> Some d
                | Some (Number_text n) \<Rightarrow> None)"
  using assms
  by (auto simp: getCityWeather_def request_weather_def Let_def cached_or_null_def getItem_def
      split: prod.splits sum.splits option.splits item.splits)

lemma returns_when_constructed: "\<exists>r. fst (getCityWeather (Inr ()) ai city w) = Inr r"
  by (simp add: getCityWeather_def Let_def split: prod.splits sum.splits option.splits)

lemma constructor_throw_escapes:
  assumes "city \<noteq> []" and "\<not> cooldown_active w"
    and "fresh_hit (getItem (cacheKey city) w) (now w) = None"
  shows "getCityWeather (Inl e) ai city w = (Inl (Rejected e), w)"
  using assms by (simp add: getCityWeather_def Let_def)

text \<open>
  C6. When the network call of a fetch fails, the fetch is to return the cache entry for
  the key if one is present and \<open>null\<close> otherwise, and no fetch is to throw past its
  boundary. The code misses both. For the city named Cooldown, whose cache key is the
  cooldown key, a stamp that has run out is stored where the entry would be: no cache
  entry is present, the network call fails, and the \<open>catch\<close> block returns the stamp's
  \<open>data\<close>, \<open>undefined\<close>, not \<open>null\<close>. And the client is constructed before the \<open>try\<close>
  block: when the constructor throws, for a key with no fresh entry and the breaker closed,
  the fetch throws.
\<close>

theorem fallback_at_cooldown_key:
  "cacheKey ''Cooldown'' = COOLDOWN_KEY
   \<and> \<not> cooldown_active expired_world
   \<and> (\<forall>d t. items expired_world (cacheKey ''Cooldown'') \<noteq> Some (Entry_text d t))
   \<and> fst (retryWithBackoff always_offline 1 3000 expired_world)
       = Inl \<lparr>message = Some ''Failed to fetch'', status = None\<rparr>
   \<and> fst (getCityWeather (Inr ()) always_offline ''Cooldown'' expired_world) = Inr None
   \<and> fst (getCityWeather (Inr ()) always_offline ''Cooldown'' expired_world) \<noteq> Inr (Some JNull)
   \<and> fst (getCityWeather (Inl \<lparr>message = Some ''client construction failed'', status = None\<rparr>)
            always_offline ''Paris'' stale_world)
       = Inl (Rejected \<lparr>message = Some ''client construction failed'', status = None\<rparr>)"
  by (simp add: getCityWeather_def request_weather_def Let_def cooldown_active_def getItem_def
      cached_or_null_def fresh_hit_def cacheKey_Cooldown cacheKey_Paris expired_world_def stale_world_def
      paris_entry_def COOLDOWN_KEY_def CACHE_DURATION_def retryWithBackoff_default always_offline_def
      isRateLimit_def)




section \<open>Edits and the debounced push\<close>

text \<open>
  C2. After \<open>handleUpdateAndSync\<close> returns, the document stored under the trip key is the
  edited document with \<open>lastSynced\<close> set to the stamp, and so is the component's \<open>trip\<close>,
  whatever \<open>isOnline\<close> is; the handler itself sets no timer and sends nothing, and the effect
  that then schedules the push leaves the stored document as it is.
\<close>

theorem edit_is_durable:
  "stored_trip (browser (handleUpdateAndSync stamp d a)) = Some (d\<lparr>lastSynced := Some stamp\<rparr>)
   \<and> trip (handleUpdateAndSync stamp d a) = Some (d\<lparr>lastSynced := Some stamp\<rparr>)
   \<and> timers (handleUpdateAndSync stamp d a) = timers a
   \<and> posted (browser (handleUpdateAndSync stamp d a)) = posted (browser a)
   \<and> stored_trip (browser (autoSync_effect t (handleUpdateAndSync stamp d a))) = Some (d\<lparr>lastSynced := Some stamp\<rparr>)"
  by (simp add: handleUpdateAndSync_def autoSync_effect_def clear_debounce_def clearTimeout_def setTimeout_def Let_def
      split: option.splits)

theorem edit_is_durable_witness:
  "stored_trip (browser (handleUpdateAndSync ''2026-01-02T00:00:00.000Z'' trip_jan1 first_run))
     = Some (trip_jan1\<lparr>lastSynced := Some ''2026-01-02T00:00:00.000Z''\<rparr>)
   \<and> timers (handleUpdateAndSync ''2026-01-02T00:00:00.000Z'' trip_jan1 first_run) = []
   \<and> posted (browser (handleUpdateAndSync ''2026-01-02T00:00:00.000Z'' trip_jan1 first_run)) = []"
  using edit_is_durable [of "''2026-01-02T00:00:00.000Z''" trip_jan1 first_run 0]
  by (simp add: first_run_def initial_app_def)

lemma timer_callback_frame [simp]:
  "isOnline (timer_callback s x y tm a) = isOnline a"
  "timers (timer_callback s x y tm a) = timers a"
  "debounceTimerRef (timer_callback s x y tm a) = debounceTimerRef a"
  "trip (timer_callback s x y tm a) = trip a"
  "stored_trip (browser (timer_callback s x y tm a)) = stored_trip (browser a)"
  by (simp_all add: timer_callback_def pushToCloud_def Let_def split: sum.splits)

lemma run_timers_frame [simp]:
  "isOnline (run_timers net f ps a) = isOnline a
   \<and> timers (run_timers net f ps a) = timers a
   \<and> debounceTimerRef (run_timers net f ps a) = debounceTimerRef a
   \<and> trip (run_timers net f ps a) = trip a
   \<and> stored_trip (browser (run_timers net f ps a)) = stored_trip (browser a)"
proof (induction ps arbitrary: a)
  case Nil
  show ?case by simp
next
  case (Cons p ps)
  obtain i tm where p: "p = (i, tm)" by (cases p)
  show ?case unfolding p by (simp add: Cons.IH)
qed

lemma elapse_frame [simp]:
  "isOnline (elapse net f t a) = isOnline a"
  "debounceTimerRef (elapse net f t a) = debounceTimerRef a"
  "trip (elapse net f t a) = trip a"
  "stored_trip (browser (elapse net f t a)) = stored_trip (browser a)"
  "timers (elapse net f t a) = filter (\<lambda>p. \<not> due (snd p) \<le> t) (timers a)"
  by (simp_all add: elapse_def)

lemma sole_timer_elapse: "sole_timer a \<Longrightarrow> sole_timer (elapse net f t a)"
  by (simp add: sole_timer_def)

lemma clear_debounce_sole: "sole_timer a \<Longrightarrow> timers (clear_debounce a) = []"
  by (cases "timers a")
     (auto simp: sole_timer_def clear_debounce_def clearTimeout_def filter_empty_conv split: option.splits)

lemma clear_debounce_frame [simp]:
  "trip (clear_debounce a) = trip a" "isOnline (clear_debounce a) = isOnline a"
  "browser (clear_debounce a) = browser a" "last_timer (clear_debounce a) = last_timer a"
  "debounceTimerRef (clear_debounce a) = debounceTimerRef a"
  by (simp_all add: clear_debounce_def clearTimeout_def split: option.splits)

lemma clear_debounce_empty: "timers a = [] \<Longrightarrow> timers (clear_debounce a) = []"
  by (simp add: clear_debounce_def clearTimeout_def split: option.splits)

lemma local_edit_timers:
  assumes "sole_timer a"
  shows "timers (local_edit f t d a)
           = [(Suc (last_timer a), \<lparr>due = t + 2000, closed_trip = stamped f (t, d), closed_isOnline = isOnline a\<rparr>)]
       \<and> debounceTimerRef (local_edit f t d a) = Some (Suc (last_timer a))"
proof -
  let ?h = "handleUpdateAndSync (f t) d a"
  have "sole_timer ?h"
    using assms by (simp add: sole_timer_def handleUpdateAndSync_def Let_def)
  then have c: "timers (clear_debounce ?h) = []" by (rule clear_debounce_sole)
  then have c2: "timers (clear_debounce (clear_debounce ?h)) = []" by (rule clear_debounce_empty)
  have tr: "trip ?h = Some (stamped f (t, d))" "isOnline ?h = isOnline a" "last_timer ?h = last_timer a"
    by (simp_all add: handleUpdateAndSync_def Let_def stamped_def)
  show ?thesis
    using c2 tr by (simp add: local_edit_def autoSync_effect_def Let_def setTimeout_def)
qed

lemma local_edit_frame [simp]:
  "posted (browser (local_edit f t d a)) = posted (browser a)"
  "isOnline (local_edit f t d a) = isOnline a"
  by (simp_all add: local_edit_def handleUpdateAndSync_def autoSync_effect_def setTimeout_def Let_def
      split: option.splits)

lemma sole_timer_local_edit: "sole_timer a \<Longrightarrow> sole_timer (local_edit f t d a)"
  using local_edit_timers [of a f t d] by (simp add: sole_timer_def)

lemma sole_timer_initial: "sole_timer (initial_app b online)"
  by (simp add: sole_timer_def initial_app_def)

lemma sole_timer_effect: "sole_timer a \<Longrightarrow> sole_timer (autoSync_effect t a)"
  using clear_debounce_sole [of a] clear_debounce_empty [of "clear_debounce a"]
  by (auto simp: sole_timer_def autoSync_effect_def Let_def setTimeout_def split: option.splits)

lemma sole_timer_pull: "sole_timer a \<Longrightarrow> sole_timer (performInitialPull onLine got a)"
  by (auto simp: sole_timer_def performInitialPull_def split: sum.splits option.splits)

lemma elapse_not_due:
  "timers a = [(i, tm)] \<Longrightarrow> t < due tm \<Longrightarrow> elapse net f t a = a"
  by (simp add: elapse_def)

lemma elapse_due:
  "timers a = [(i, tm)] \<Longrightarrow> due tm \<le> t \<Longrightarrow>
     elapse net f t a =
       timer_callback (snd (net (closed_trip tm))) (f (due tm)) (f (due tm + int (fst (net (closed_trip tm))))) tm
         (a\<lparr>timers := []\<rparr>)"
  by (simp add: elapse_def)

lemma elapse_idle: "timers a = [] \<Longrightarrow> elapse net f t a = a"
  by (simp add: elapse_def)

lemma burst_tail:
  assumes "timers a = [(i, tm)]" and "debounceTimerRef a = Some i" and "i \<noteq> 0"
    and "due tm = prev + 2000" and "within_window prev es" and "es \<noteq> []"
  shows "posted (browser (edit_run net f es a)) = posted (browser a)
       \<and> isOnline (edit_run net f es a) = isOnline a
       \<and> (\<exists>j. j \<noteq> 0 \<and> debounceTimerRef (edit_run net f es a) = Some j
              \<and> timers (edit_run net f es a)
                  = [(j, \<lparr>due = fst (last es) + 2000, closed_trip = stamped f (last es), closed_isOnline = isOnline a\<rparr>)])"
  using assms
proof (induction es arbitrary: a prev i tm)
  case Nil
  then show ?case by simp
next
  case (Cons e es)
  obtain t d where e: "e = (t, d)" by (cases e)
  from Cons.prems e have win: "t < prev + 2000" "within_window t es" by simp_all
  have quiet: "elapse net f t a = a"
    by (rule elapse_not_due [OF Cons.prems(1)]) (use win(1) Cons.prems(4) in simp)
  have sole: "sole_timer a"
    using Cons.prems(1,2,3) by (simp add: sole_timer_def)
  let ?b = "local_edit f t d a"
  let ?tm = "\<lparr>due = t + 2000, closed_trip = stamped f (t, d), closed_isOnline = isOnline a\<rparr>"
  from local_edit_timers [OF sole, of f t d]
  have tm: "timers ?b = [(Suc (last_timer a), ?tm)]" "debounceTimerRef ?b = Some (Suc (last_timer a))"
    by simp_all
  show ?case
  proof (cases "es = []")
    case True
    with e quiet tm show ?thesis by simp
  next
    case False
    have "due ?tm = t + 2000" by simp
    from Cons.IH [OF tm(1) tm(2) _ this win(2) False] e quiet False show ?thesis
      by simp
  qed
qed

text \<open>
  C9. After a run of edits, each less than two seconds after the one before, exactly one
  timer is set, the one \<open>debounceTimerRef\<close> holds, due two seconds after the last edit and
  closed over the document of the last edit: every edit has cleared the timer of the edit
  before and set its own. No push was sent between the first edit and the last, and whatever
  time passes afterwards at most one push is sent, carrying the document of the last edit
  (none while the timer is not due, and none when the component was offline); once the
  timer has fired no timer remains.
\<close>

theorem burst_is_coalesced:
  assumes "sole_timer a" and "es \<noteq> []" and "within_window (fst (hd es)) (tl es)"
  shows "(\<exists>j. debounceTimerRef (edit_run net f es a) = Some j
              \<and> timers (edit_run net f es a)
                  = [(j, \<lparr>due = fst (last es) + 2000, closed_trip = stamped f (last es), closed_isOnline = isOnline a\<rparr>)])
       \<and> posted (browser (edit_run net f es a)) = posted (browser (elapse net f (fst (hd es)) a))
       \<and> posted (browser (elapse net f T (edit_run net f es a)))
           = posted (browser (elapse net f (fst (hd es)) a))
             @ (if fst (last es) + 2000 \<le> T \<and> isOnline a
                then [\<lparr>document = stamped f (last es), clientVersion = APP_VERSION,
                       pushedAt = f (fst (last es) + 2000)\<rparr>]
                else [])
       \<and> (fst (last es) + 2000 \<le> T \<longrightarrow> timers (elapse net f T (edit_run net f es a)) = [])"
proof -
  obtain t d rest where es: "es = (t, d) # rest" using assms(2) by (cases es) auto
  let ?a0 = "elapse net f t a"
  let ?b = "local_edit f t d ?a0"
  let ?tm = "\<lparr>due = t + 2000, closed_trip = stamped f (t, d), closed_isOnline = isOnline a\<rparr>"
  have sole0: "sole_timer ?a0" using assms(1) by (rule sole_timer_elapse)
  from local_edit_timers [OF sole0, of f t d]
  have tm: "timers ?b = [(Suc (last_timer ?a0), ?tm)]" "debounceTimerRef ?b = Some (Suc (last_timer ?a0))"
    by simp_all
  have run: "edit_run net f es a = edit_run net f rest ?b" by (simp add: es)
  have "\<exists>j. debounceTimerRef (edit_run net f es a) = Some j
          \<and> timers (edit_run net f es a)
              = [(j, \<lparr>due = fst (last es) + 2000, closed_trip = stamped f (last es), closed_isOnline = isOnline a\<rparr>)]
          \<and> posted (browser (edit_run net f es a)) = posted (browser ?a0)"
  proof (cases "rest = []")
    case True
    with tm show ?thesis by (simp add: es)
  next
    case False
    from assms(3) es have win: "within_window t rest" by simp
    have "due ?tm = t + 2000" by simp
    from burst_tail [OF tm(1) tm(2) _ this win False, of net f] False show ?thesis
      by (auto simp: run es)
  qed
  then obtain j where j: "debounceTimerRef (edit_run net f es a) = Some j"
    "timers (edit_run net f es a)
       = [(j, \<lparr>due = fst (last es) + 2000, closed_trip = stamped f (last es), closed_isOnline = isOnline a\<rparr>)]"
    "posted (browser (edit_run net f es a)) = posted (browser ?a0)"
    by blast
  have fired: "fst (last es) + 2000 \<le> T \<Longrightarrow>
      posted (browser (elapse net f T (edit_run net f es a)))
        = posted (browser ?a0) @ (if isOnline a
                then [\<lparr>document = stamped f (last es), clientVersion = APP_VERSION,
                       pushedAt = f (fst (last es) + 2000)\<rparr>] else [])"
    using j(3) by (simp add: elapse_due [OF j(2)] timer_callback_def pushToCloud_def Let_def split: sum.splits)
  have waiting: "\<not> fst (last es) + 2000 \<le> T \<Longrightarrow>
      posted (browser (elapse net f T (edit_run net f es a))) = posted (browser ?a0)"
    using j(3) by (simp add: elapse_not_due [OF j(2)])
  have after: "posted (browser (elapse net f T (edit_run net f es a)))
           = posted (browser (elapse net f (fst (hd es)) a))
             @ (if fst (last es) + 2000 \<le> T \<and> isOnline a
                then [\<lparr>document = stamped f (last es), clientVersion = APP_VERSION,
                       pushedAt = f (fst (last es) + 2000)\<rparr>]
                else [])"
    using fired waiting by (cases "fst (last es) + 2000 \<le> T") (simp_all add: es)
  have gone: "fst (last es) + 2000 \<le> T \<longrightarrow> timers (elapse net f T (edit_run net f es a)) = []"
    by (simp add: j(2))
  have before: "posted (browser (edit_run net f es a)) = posted (browser (elapse net f (fst (hd es)) a))"
    using j(3) by (simp add: es)
  have ex: "\<exists>j. debounceTimerRef (edit_run net f es a) = Some j
              \<and> timers (edit_run net f es a)
                  = [(j, \<lparr>due = fst (last es) + 2000, closed_trip = stamped f (last es), closed_isOnline = isOnline a\<rparr>)]"
    using j(1,2) by (intro exI [of _ j] conjI)
  show ?thesis
    by (rule conjI [OF ex conjI [OF before conjI [OF after gone]]])
qed


theorem burst_is_coalesced_witness:
  "sole_timer (holding trip_jan1)
   \<and> within_window 0 [(500, trip_jan2)]
   \<and> posted (browser (edit_run uplink_ok sample_clock [(0, trip_jan1), (500, trip_jan2)] (holding trip_jan1))) = []
   \<and> posted (browser (elapse uplink_ok sample_clock 2499
         (edit_run uplink_ok sample_clock [(0, trip_jan1), (500, trip_jan2)] (holding trip_jan1)))) = []
   \<and> posted (browser (elapse uplink_ok sample_clock 3000
         (edit_run uplink_ok sample_clock [(0, trip_jan1), (500, trip_jan2)] (holding trip_jan1))))
       = [\<lparr>document = trip_jan2\<lparr>lastSynced := Some ''2026-01-02T00:00:00.500Z''\<rparr>,
           clientVersion = APP_VERSION, pushedAt = ''2026-01-02T00:00:02.500Z''\<rparr>]"
proof -
  have idle: "elapse uplink_ok sample_clock 0 (holding trip_jan1) = holding trip_jan1"
    by (rule elapse_idle) (simp add: holding_def initial_app_def)
  have start: "posted (browser (holding trip_jan1)) = []" "isOnline (holding trip_jan1)"
    by (simp_all add: holding_def initial_app_def)
  have sole: "sole_timer (holding trip_jan1)"
    by (simp add: sole_timer_def holding_def initial_app_def)
  show ?thesis
    using burst_is_coalesced [of "holding trip_jan1" "[(0, trip_jan1), (500, trip_jan2)]" uplink_ok sample_clock 3000]
      burst_is_coalesced [of "holding trip_jan1" "[(0, trip_jan1), (500, trip_jan2)]" uplink_ok sample_clock 2499]
      idle start sole
    by (simp add: stamped_def sample_clock_def)
qed

section \<open>Push, pull and the merge on the initial pull\<close>

text \<open>
  C7. A push whose \<open>fetch\<close> is rejected returns false and stores the pending flag; the
  timer's callback then sets \<open>hasPendingSync\<close>, and a reload starts with \<open>hasPendingSync\<close>
  true, read back from the store. A push whose \<open>fetch\<close> resolves returns true and removes
  the stored flag.
\<close>

theorem failed_push_is_flagged:
  "(fst (pushToCloud sent stamp t b) \<longleftrightarrow> (\<exists>u. sent = Inr u))
   \<and> stored_pending (snd (pushToCloud sent stamp t b)) = (case sent of Inl e \<Rightarrow> Some ''true'' | Inr u \<Rightarrow> None)
   \<and> (closed_isOnline tm \<longrightarrow>
        hasPendingSync (timer_callback sent stamp settled tm a) = (case sent of Inl e \<Rightarrow> True | Inr u \<Rightarrow> False)
        \<and> stored_pending (browser (timer_callback sent stamp settled tm a))
            = (case sent of Inl e \<Rightarrow> Some ''true'' | Inr u \<Rightarrow> None)
        \<and> hasPendingSync (initial_app (browser (timer_callback sent stamp settled tm a)) online)
            = (case sent of Inl e \<Rightarrow> True | Inr u \<Rightarrow> False))"
  by (auto simp: pushToCloud_def timer_callback_def initial_app_def Let_def split: sum.splits)

theorem failed_push_is_flagged_witness:
  "closed_isOnline \<lparr>due = 2000, closed_trip = trip_jan1, closed_isOnline = True\<rparr>
   \<and> hasPendingSync (timer_callback (Inl \<lparr>message = Some ''Failed to fetch'', status = None\<rparr>)
         ''2026-01-01T00:00:02.000Z'' ''2026-01-01T00:00:02.100Z''
         \<lparr>due = 2000, closed_trip = trip_jan1, closed_isOnline = True\<rparr> (holding trip_jan1))
   \<and> hasPendingSync (initial_app (browser (timer_callback (Inl \<lparr>message = Some ''Failed to fetch'', status = None\<rparr>)
         ''2026-01-01T00:00:02.000Z'' ''2026-01-01T00:00:02.100Z''
         \<lparr>due = 2000, closed_trip = trip_jan1, closed_isOnline = True\<rparr> (holding trip_jan1))) False)
   \<and> stored_pending (browser (timer_callback (Inr ())
         ''2026-01-01T00:00:02.000Z'' ''2026-01-01T00:00:02.100Z''
         \<lparr>due = 2000, closed_trip = trip_jan1, closed_isOnline = True\<rparr> first_run)) = None"
  using failed_push_is_flagged [of "Inl \<lparr>message = Some ''Failed to fetch'', status = None\<rparr>"
      "''2026-01-01T00:00:02.000Z''" trip_jan1 "browser (holding trip_jan1)"
      "\<lparr>due = 2000, closed_trip = trip_jan1, closed_isOnline = True\<rparr>" "''2026-01-01T00:00:02.100Z''" "holding trip_jan1" False]
    failed_push_is_flagged [of "Inr ()"
      "''2026-01-01T00:00:02.000Z''" trip_jan1 "browser first_run"
      "\<lparr>due = 2000, closed_trip = trip_jan1, closed_isOnline = True\<rparr>" "''2026-01-01T00:00:02.100Z''" first_run False]
  by simp

text \<open>
  C8. \<open>pullFromCloud\<close> returns a trip exactly when the response is ok and its body parses
  to that trip with a non-empty \<open>id\<close>. It always returns: on a rejected \<open>fetch\<close>, a response
  that is not ok, a body that does not parse, and a parsed value that is falsy or has no
  \<open>id\<close>, it returns \<open>null\<close>.
\<close>

theorem pull_needs_identity:
  "(pullFromCloud got = Inr (Some t)
      \<longleftrightarrow> (\<exists>response. got = Inr response \<and> ok response
              \<and> json_body response = Inr (Trip_value t) \<and> trip_id t \<noteq> []))
   \<and> (\<exists>r. pullFromCloud got = Inr r)
   \<and> pullFromCloud (Inl e) = Inr None
   \<and> pullFromCloud (Inr \<lparr>ok = False, json_body = body\<rparr>) = Inr None
   \<and> pullFromCloud (Inr \<lparr>ok = True, json_body = Inl f\<rparr>) = Inr None
   \<and> pullFromCloud (Inr \<lparr>ok = True, json_body = Inr Falsy_value\<rparr>) = Inr None
   \<and> pullFromCloud (Inr \<lparr>ok = True, json_body = Inr Value_without_id\<rparr>) = Inr None"
  by (auto simp: pullFromCloud_def pull_request_def truthy_def split: sum.splits if_splits elim: as_Trip.elims)

theorem pull_needs_identity_witness:
  "pullFromCloud (served trip_jan1) = Inr (Some trip_jan1)
   \<and> trip_id trip_jan1 \<noteq> []
   \<and> pullFromCloud (served (trip_jan1\<lparr>trip_id := []\<rparr>)) = Inr None"
  using pull_needs_identity [of "served trip_jan1" trip_jan1]
    pull_needs_identity [of "served (trip_jan1\<lparr>trip_id := []\<rparr>)" "trip_jan1\<lparr>trip_id := []\<rparr>"]
  by (simp add: served_def trip_jan1_def pullFromCloud_def pull_request_def truthy_def)

text \<open>Strings of fixed-width decimal fields are ordered as the numbers they spell, so two
  stamps written by \<open>toISOString\<close> are ordered as their instants.\<close>

lemma append_less_same_length:
  "length xs = length ys \<Longrightarrow> (xs @ us < ys @ vs \<longleftrightarrow> xs < ys \<or> (xs = ys \<and> us < vs))"
  for xs ys us vs :: string
  by (induction xs ys rule: list_induct2) auto

lemma length_pad [simp]: "length (pad k n) = k"
  by (induction k arbitrary: n) auto

lemma digit_less: "a < 10 \<Longrightarrow> b < 10 \<Longrightarrow> (digit a < digit b \<longleftrightarrow> a < b)"
  by (simp add: digit_def less_char_def)

lemma digit_eq: "a < 10 \<Longrightarrow> b < 10 \<Longrightarrow> (digit a = digit b \<longleftrightarrow> a = b)"
  using digit_less [of a b] digit_less [of b a] by (metis less_irrefl nat_neq_iff)

lemma pad_eq: "n < 10 ^ k \<Longrightarrow> m < 10 ^ k \<Longrightarrow> (pad k n = pad k m \<longleftrightarrow> n = m)"
proof (induction k arbitrary: n m)
  case 0
  then show ?case by simp
next
  case (Suc k)
  have d: "n div 10 < 10 ^ k" "m div 10 < 10 ^ k"
    using Suc.prems by (simp_all add: less_mult_imp_div_less mult.commute)
  have "pad (Suc k) n = pad (Suc k) m \<longleftrightarrow> n div 10 = m div 10 \<and> n mod 10 = m mod 10"
    using Suc.IH [OF d] by (simp add: digit_eq)
  also have "\<dots> \<longleftrightarrow> n = m"
    by (metis div_mult_mod_eq)
  finally show ?case .
qed

lemma digits_less:
  fixes a b c d :: nat
  assumes "b < 10" and "d < 10"
  shows "10 * a + b < 10 * c + d \<longleftrightarrow> a < c \<or> (a = c \<and> b < d)"
  using assms by arith

lemma divmod_less: "(n::nat) < m \<longleftrightarrow> n div 10 < m div 10 \<or> (n div 10 = m div 10 \<and> n mod 10 < m mod 10)"
  using digits_less [of "n mod 10" "m mod 10" "n div 10" "m div 10"] by simp

lemma pad_less: "n < 10 ^ k \<Longrightarrow> m < 10 ^ k \<Longrightarrow> (pad k n < pad k m \<longleftrightarrow> n < m)"
proof (induction k arbitrary: n m)
  case 0
  then show ?case by simp
next
  case (Suc k)
  have d: "n div 10 < 10 ^ k" "m div 10 < 10 ^ k"
    using Suc.prems by (simp_all add: less_mult_imp_div_less mult.commute)
  have len: "length (pad k (n div 10)) = length (pad k (m div 10))" by simp
  have last: "[digit (n mod 10)] < [digit (m mod 10)] \<longleftrightarrow> n mod 10 < m mod 10"
    by (simp add: digit_less)
  have "pad (Suc k) n < pad (Suc k) m
        \<longleftrightarrow> pad k (n div 10) < pad k (m div 10)
            \<or> (pad k (n div 10) = pad k (m div 10) \<and> [digit (n mod 10)] < [digit (m mod 10)])"
    unfolding pad.simps by (rule append_less_same_length [OF len])
  also have "\<dots> \<longleftrightarrow> n div 10 < m div 10 \<or> (n div 10 = m div 10 \<and> n mod 10 < m mod 10)"
    unfolding Suc.IH [OF d] pad_eq [OF d] last ..
  also have "\<dots> \<longleftrightarrow> n < m"
    by (rule divmod_less [symmetric])
  finally show ?case .
qed

lemma field_less:
  "n < 10 ^ k \<Longrightarrow> m < 10 ^ k \<Longrightarrow>
     (pad k n @ c # us < pad k m @ c # vs \<longleftrightarrow> n < m \<or> (n = m \<and> us < vs))"
  by (simp add: append_less_same_length pad_less pad_eq)

lemma iso_order:
  assumes "in_calendar u" and "in_calendar v"
  shows "toISOString_utc u < toISOString_utc v \<longleftrightarrow> earlier u v"
proof -
  have b: "year u < 10 ^ 4" "month u < 10 ^ 2" "day u < 10 ^ 2" "hour u < 10 ^ 2" "minute u < 10 ^ 2"
    "second u < 10 ^ 2" "millis u < 10 ^ 3"
    "year v < 10 ^ 4" "month v < 10 ^ 2" "day v < 10 ^ 2" "hour v < 10 ^ 2" "minute v < 10 ^ 2"
    "second v < 10 ^ 2" "millis v < 10 ^ 3"
    using assms by (simp_all add: in_calendar_def)
  show ?thesis
    unfolding toISOString_utc_def earlier_def
    by (simp only: append_Cons append_Nil field_less [OF b(1) b(8)] field_less [OF b(2) b(9)]
        field_less [OF b(3) b(10)] field_less [OF b(4) b(11)] field_less [OF b(5) b(12)]
        field_less [OF b(6) b(13)] field_less [OF b(7) b(14)] less_irrefl simp_thms)
qed

lemma stamp_jan1: "toISOString_utc jan1 = ''2026-01-01T00:00:00.000Z''"
  by code_simp

lemma stamp_jan2: "toISOString_utc jan2 = ''2026-01-02T00:00:00.000Z''"
  by code_simp

text \<open>
  C1. On the initial pull, when the stored document and the pulled document both carry a
  (non-empty) \<open>lastSynced\<close>, the document stored afterwards, and shown, is the pulled one if
  its stamp is the greater string and the local one otherwise; in particular with equal
  stamps nothing in the browser changes. When the two stamps are \<open>toISOString\<close> texts, the
  greater string is the later instant, so the copy stored afterwards is the later one, and
  the local one on a tie.
\<close>

theorem newer_copy_wins:
  assumes "stored_trip (browser a) = Some l" and "lastSynced l = Some T1" and "T1 \<noteq> []"
    and "pullFromCloud got = Inr (Some r)" and "lastSynced r = Some T2" and "T2 \<noteq> []"
  shows "stored_trip (browser (performInitialPull True got a)) = Some (if T1 < T2 then r else l)
       \<and> trip (performInitialPull True got a) = (if T1 < T2 then Some r else trip a)
       \<and> (T2 \<le> T1 \<longrightarrow> browser (performInitialPull True got a) = browser a)
       \<and> (\<forall>u v. in_calendar u \<and> in_calendar v \<and> T1 = toISOString_utc u \<and> T2 = toISOString_utc v
              \<longrightarrow> stored_trip (browser (performInitialPull True got a)) = Some (if earlier u v then r else l))"
proof -
  have by_string: "stored_trip (browser (performInitialPull True got a)) = Some (if T1 < T2 then r else l)"
    using assms by (auto simp: performInitialPull_def cloud_wins_def truthy_def js_greater_def)
  have shown: "trip (performInitialPull True got a) = (if T1 < T2 then Some r else trip a)"
    using assms by (auto simp: performInitialPull_def cloud_wins_def truthy_def js_greater_def)
  have kept: "T2 \<le> T1 \<longrightarrow> browser (performInitialPull True got a) = browser a"
    using assms by (auto simp: performInitialPull_def cloud_wins_def truthy_def js_greater_def)
  have by_instant: "\<forall>u v. in_calendar u \<and> in_calendar v \<and> T1 = toISOString_utc u \<and> T2 = toISOString_utc v
              \<longrightarrow> stored_trip (browser (performInitialPull True got a)) = Some (if earlier u v then r else l)"
    using by_string iso_order by simp
  from by_string shown kept by_instant show ?thesis by (intro conjI)
qed

theorem newer_copy_wins_witness:
  "stored_trip (browser (performInitialPull True (served trip_jan2) (holding trip_jan1))) = Some trip_jan2
   \<and> trip (performInitialPull True (served trip_jan2) (holding trip_jan1)) = Some trip_jan2
   \<and> stored_trip (browser (performInitialPull True (served trip_jan1) (holding trip_jan2))) = Some trip_jan2
   \<and> trip (performInitialPull True (served trip_jan1) (holding trip_jan2)) = Some trip_jan2
   \<and> browser (performInitialPull True (served trip_jan2) (holding trip_jan2)) = browser (holding trip_jan2)
   \<and> in_calendar jan1 \<and> in_calendar jan2 \<and> earlier jan1 jan2
   \<and> lastSynced trip_jan1 = Some (toISOString_utc jan1) \<and> lastSynced trip_jan2 = Some (toISOString_utc jan2)"
proof -
  have cal: "in_calendar jan1 \<and> in_calendar jan2 \<and> earlier jan1 jan2"
    by (simp add: in_calendar_def earlier_def jan1_def jan2_def)
  show ?thesis
    using newer_copy_wins [of "holding trip_jan1" trip_jan1 "''2026-01-01T00:00:00.000Z''" "served trip_jan2" trip_jan2 "''2026-01-02T00:00:00.000Z''"]
      newer_copy_wins [of "holding trip_jan2" trip_jan2 "''2026-01-02T00:00:00.000Z''" "served trip_jan1" trip_jan1 "''2026-01-01T00:00:00.000Z''"]
      newer_copy_wins [of "holding trip_jan2" trip_jan2 "''2026-01-02T00:00:00.000Z''" "served trip_jan2" trip_jan2 "''2026-01-02T00:00:00.000Z''"]
      cal
    by (simp add: holding_def initial_app_def trip_jan1_def trip_jan2_def served_def pullFromCloud_def
        pull_request_def truthy_def stamp_jan1 stamp_jan2)
qed

text \<open>
  C3. The initial pull is a function of the state and of what the network gives, and
  running it again on its own result with the same answer changes nothing. With nothing
  stored, the pulled document is adopted, whatever it carries; when the pull gives nothing
  (or the browser is offline), the document shown and the browser are left as they were.
\<close>

theorem reconcile_is_idempotent:
  "performInitialPull onLine got (performInitialPull onLine got a) = performInitialPull onLine got a
   \<and> (stored_trip (browser a) = None \<and> pullFromCloud got = Inr (Some r)
        \<longrightarrow> trip (performInitialPull True got a) = Some r
          \<and> stored_trip (browser (performInitialPull True got a)) = Some r)
   \<and> (pullFromCloud got = Inr None
        \<longrightarrow> trip (performInitialPull onLine got a) = trip a
          \<and> browser (performInitialPull onLine got a) = browser a)
   \<and> performInitialPull False got a = a"
  by (auto simp: performInitialPull_def cloud_wins_def truthy_def js_greater_def split: sum.splits option.splits)

theorem reconcile_is_idempotent_witness:
  "stored_trip (browser first_run) = None
   \<and> pullFromCloud (served trip_jan1) = Inr (Some trip_jan1)
   \<and> trip (performInitialPull True (served trip_jan1) first_run) = Some trip_jan1
   \<and> stored_trip (browser (performInitialPull True (served trip_jan1) first_run)) = Some trip_jan1
   \<and> pullFromCloud (Inl \<lparr>message = Some ''Failed to fetch'', status = None\<rparr>) = Inr None
   \<and> browser (performInitialPull True (Inl \<lparr>message = Some ''Failed to fetch'', status = None\<rparr>) (holding trip_jan2))
       = browser (holding trip_jan2)
   \<and> trip (performInitialPull True (Inl \<lparr>message = Some ''Failed to fetch'', status = None\<rparr>) (holding trip_jan2))
       = Some trip_jan2"
  using reconcile_is_idempotent [of True "served trip_jan1" first_run trip_jan1]
    reconcile_is_idempotent [of True "Inl \<lparr>message = Some ''Failed to fetch'', status = None\<rparr>" "holding trip_jan2" trip_jan1]
  by (simp add: first_run_def holding_def initial_app_def trip_jan1_def served_def pullFromCloud_def pull_request_def truthy_def)

end
